theory Spec2Isabelle
  imports Main "HOL-Library.Sublist"
begin

section \<open>Strings and errors\<close>

text \<open>
  The program is the main-process module of an Electron application and its
  preload script.
  A JavaScript string is modelled by the bytes of its UTF-8 encoding, a \<open>string\<close>:
  every test the program and its library calls make on a string (\<open>/\<close>, \<open>.\<close>, \<open>%\<close>,
  \<open>?\<close>, \<open>#\<close>, \<open>:\<close>, hexadecimal digits, the prefix \<open>http\<close>) is a test on ASCII
  characters, and no byte of a multi-byte UTF-8 sequence is an ASCII character.
  An exception is a value: \<open>Inl e\<close> in a result of type \<open>error + 'a\<close>.
\<close>

datatype error = TypeError | URIError | Error

section \<open>The \<open>path\<close> module (POSIX flavour)\<close>

text \<open>
  \<open>path.join\<close> and \<open>path.extname\<close> are functions of Node.js, modelled here as Node
  documents and implements them for POSIX paths (separator \<open>/\<close>).
\<close>

text \<open>The pieces of a path between its separators; \<open>a//b\<close> has an empty piece.\<close>

fun split_path :: "string \<Rightarrow> string list" where
  "split_path [] = [[]]"
| "split_path (c # cs) =
     (if c = CHR ''/'' then [] # split_path cs
      else (case split_path cs of
              [] \<Rightarrow> [[c]]
            | s # ss \<Rightarrow> (c # s) # ss))"

fun join_segments :: "string list \<Rightarrow> string" where
  "join_segments [] = []"
| "join_segments [s] = s"
| "join_segments (s # t # ss) = s @ CHR ''/'' # join_segments (t # ss)"

text \<open>
  \<open>normalizeString\<close>: the segments are read from left to right onto \<open>res\<close> (the last
  segment kept first). Empty segments and \<open>.\<close> are dropped. A \<open>..\<close> removes the last
  segment kept, unless there is none or it is itself \<open>..\<close>: then it is kept when
  \<open>allowAboveRoot\<close> (a relative path) and dropped otherwise (an absolute path).
\<close>

fun normalizeString :: "bool \<Rightarrow> string list \<Rightarrow> string list \<Rightarrow> string list" where
  "normalizeString allowAboveRoot res [] = res"
| "normalizeString allowAboveRoot res (s # ss) =
     (if s = [] \<or> s = ''.'' then normalizeString allowAboveRoot res ss
      else if s = ''..'' then
        (case res of
           [] \<Rightarrow> normalizeString allowAboveRoot (if allowAboveRoot then [''..''] else []) ss
         | r # rs \<Rightarrow>
             if r = ''..''
             then normalizeString allowAboveRoot
                    (if allowAboveRoot then ''..'' # res else res) ss
             else normalizeString allowAboveRoot rs ss)
      else normalizeString allowAboveRoot (s # res) ss)"

definition isAbsolute :: "string \<Rightarrow> bool" where
  "isAbsolute p = (case p of [] \<Rightarrow> False | c # _ \<Rightarrow> c = CHR ''/'')"

definition normalize :: "string \<Rightarrow> string" where
  "normalize p =
     (if p = [] then ''.''
      else
        let trailingSeparator = (last p = CHR ''/'');
            q = join_segments (rev (normalizeString (\<not> isAbsolute p) [] (split_path p)))
        in if q = [] then
             (if isAbsolute p then ''/'' else if trailingSeparator then ''./'' else ''.'')
           else (if isAbsolute p then ''/'' else []) @ q
                @ (if trailingSeparator then ''/'' else []))"

text \<open>\<open>path.join(...args)\<close>: the non-empty arguments, joined by \<open>/\<close>, normalised.\<close>

definition join :: "string list \<Rightarrow> string" where
  "join args =
     (let joined = filter (\<lambda>arg. arg \<noteq> []) args
      in if joined = [] then ''.'' else normalize (join_segments joined))"

text \<open>
  \<open>path.extname\<close>: in the last portion of the path (trailing separators ignored), the
  text from the last \<open>.\<close> on; empty when that portion has no \<open>.\<close>, when its only \<open>.\<close>
  is its first character, and when the portion is \<open>..\<close>.
\<close>

definition basename_part :: "string \<Rightarrow> string" where
  "basename_part p =
     rev (takeWhile (\<lambda>c. c \<noteq> CHR ''/'') (dropWhile (\<lambda>c. c = CHR ''/'') (rev p)))"

definition extname :: "string \<Rightarrow> string" where
  "extname p =
     (let base = basename_part p;
          ext = rev (takeWhile (\<lambda>c. c \<noteq> CHR ''.'') (rev base))
      in if CHR ''.'' \<notin> set base then []
         else if length ext + 1 = length base then []
         else if base = ''..'' then []
         else CHR ''.'' # ext)"

section \<open>\<open>decodeURIComponent\<close>\<close>

text \<open>
  The ECMAScript function \<open>decodeURIComponent\<close> (abstract operation Decode with an
  empty set of preserved escapes). A \<open>%\<close> must be followed by two hexadecimal
  digits. An escaped byte below 128 is that character. A byte with \<open>n\<close> leading one
  bits opens a UTF-8 sequence: \<open>n\<close> must be 2, 3 or 4, the next \<open>n - 1\<close> items must be
  escapes too, and the bytes must be the UTF-8 encoding of a code point. Everything
  else throws \<open>URIError\<close>.
\<close>

definition hexDigit :: "char \<Rightarrow> nat option" where
  "hexDigit c =
     (let n = (of_char c :: nat)
      in if 48 \<le> n \<and> n \<le> 57 then Some (n - 48)
         else if 65 \<le> n \<and> n \<le> 70 then Some (n - 55)
         else if 97 \<le> n \<and> n \<le> 102 then Some (n - 87)
         else None)"

definition parseHexOctet :: "char \<Rightarrow> char \<Rightarrow> nat option" where
  "parseHexOctet h l =
     (case hexDigit h of
        None \<Rightarrow> None
      | Some a \<Rightarrow> (case hexDigit l of None \<Rightarrow> None | Some b \<Rightarrow> Some (16 * a + b)))"

definition leadingOnes :: "nat \<Rightarrow> nat" where
  "leadingOnes b =
     (if b < 128 then 0 else if b < 192 then 1 else if b < 224 then 2
      else if b < 240 then 3 else if b < 248 then 4 else 5)"

definition continuationByte :: "nat \<Rightarrow> bool" where
  "continuationByte b = (128 \<le> b \<and> b \<le> 191)"

text \<open>Well-formed UTF-8 byte sequences of length 2 to 4 (Unicode, table 3-7).\<close>

fun validUTF8 :: "nat list \<Rightarrow> bool" where
  "validUTF8 [b0, b1] = (194 \<le> b0 \<and> b0 \<le> 223 \<and> continuationByte b1)"
| "validUTF8 [b0, b1, b2] =
     (continuationByte b2 \<and>
      (if b0 = 224 then 160 \<le> b1 \<and> b1 \<le> 191
       else if b0 = 237 then 128 \<le> b1 \<and> b1 \<le> 159
       else 225 \<le> b0 \<and> b0 \<le> 239 \<and> continuationByte b1))"
| "validUTF8 [b0, b1, b2, b3] =
     (continuationByte b2 \<and> continuationByte b3 \<and>
      (if b0 = 240 then 144 \<le> b1 \<and> b1 \<le> 191
       else if b0 = 244 then 128 \<le> b1 \<and> b1 \<le> 143
       else 241 \<le> b0 \<and> b0 \<le> 243 \<and> continuationByte b1))"
| "validUTF8 _ = False"

text \<open>The bytes of the \<open>k\<close> escapes \<open>%XX\<close> that a string starts with.\<close>

fun escapedOctets :: "nat \<Rightarrow> string \<Rightarrow> nat list option" where
  "escapedOctets 0 s = Some []"
| "escapedOctets (Suc k) (c # h # l # s) =
     (if c \<noteq> CHR ''%'' then None
      else (case parseHexOctet h l of
              None \<Rightarrow> None
            | Some b \<Rightarrow>
                (case escapedOctets k s of
                   None \<Rightarrow> None
                 | Some bs \<Rightarrow> Some (b # bs))))"
| "escapedOctets (Suc k) _ = None"

function decodeURIComponent :: "string \<Rightarrow> error + string" where
  "decodeURIComponent [] = Inr []"
| "decodeURIComponent (c # s) =
     (if c \<noteq> CHR ''%'' then
        (case decodeURIComponent s of Inl e \<Rightarrow> Inl e | Inr r \<Rightarrow> Inr (c # r))
      else
        (case s of
           h # l # s' \<Rightarrow>
             (case parseHexOctet h l of
                None \<Rightarrow> Inl URIError
              | Some b \<Rightarrow>
                  if leadingOnes b = 0 then
                    (case decodeURIComponent s' of
                       Inl e \<Rightarrow> Inl e
                     | Inr r \<Rightarrow> Inr (char_of b # r))
                  else if leadingOnes b = 1 \<or> leadingOnes b > 4 then Inl URIError
                  else
                    (case escapedOctets (leadingOnes b - 1) s' of
                       None \<Rightarrow> Inl URIError
                     | Some bs \<Rightarrow>
                         if validUTF8 (b # bs) then
                           (case decodeURIComponent (drop (3 * (leadingOnes b - 1)) s') of
                              Inl e \<Rightarrow> Inl e
                            | Inr r \<Rightarrow> Inr (map char_of (b # bs) @ r))
                         else Inl URIError))
         | _ \<Rightarrow> Inl URIError))"
  by pat_completeness auto
termination
  by (relation "measure length") auto

section \<open>The \<open>URL\<close> class\<close>

text \<open>
  \<open>new URL(s)\<close> is the URL parser of the WHATWG URL standard, without a base URL.
  It is modelled for URLs of a scheme that is not special, as \<open>app\<close> is not: the
  file protocol handler is called for requests of the scheme \<open>app\<close> only. The rules
  that the standard adds for the special schemes (\<open>http\<close>, \<open>https\<close>, \<open>ws\<close>, \<open>wss\<close>,
  \<open>ftp\<close>, \<open>file\<close>) and the validation of the host and the port are left out.
\<close>

record URL =
  protocol :: string
  username :: string
  password :: string
  host :: string
  pathname :: string
  search :: string
  hash :: string

definition asciiAlpha :: "char \<Rightarrow> bool" where
  "asciiAlpha c =
     (let n = (of_char c :: nat) in (65 \<le> n \<and> n \<le> 90) \<or> (97 \<le> n \<and> n \<le> 122))"

definition asciiDigit :: "char \<Rightarrow> bool" where
  "asciiDigit c = (let n = (of_char c :: nat) in 48 \<le> n \<and> n \<le> 57)"

definition asciiLower :: "char \<Rightarrow> char" where
  "asciiLower c =
     (let n = (of_char c :: nat) in if 65 \<le> n \<and> n \<le> 90 then char_of (n + 32) else c)"

definition hexChar :: "nat \<Rightarrow> char" where
  "hexChar n = ''0123456789ABCDEF'' ! (n mod 16)"

text \<open>
  The percent-encode sets of the standard, on bytes, by character code: the C0
  controls and everything above \<open>~\<close>; for a fragment also space, the double quote,
  \<open><\<close>, \<open>>\<close> and the backquote; for a query space, the double quote, \<open>#\<close>, \<open><\<close>
  and \<open>>\<close>; for a path also \<open>?\<close>, \<open>^\<close>, the backquote, \<open>{\<close> and \<open>}\<close>; for the
  credentials also \<open>/\<close>, \<open>:\<close>, \<open>;\<close>, \<open>=\<close>, \<open>@\<close>, the brackets, the backslash and
  \<open>|\<close>.
\<close>

definition c0ControlSet :: "char \<Rightarrow> bool" where
  "c0ControlSet c = (let n = (of_char c :: nat) in n \<le> 31 \<or> n > 126)"

definition fragmentSet :: "char \<Rightarrow> bool" where
  "fragmentSet c = (c0ControlSet c \<or> (of_char c :: nat) \<in> {32, 34, 60, 62, 96})"

definition querySet :: "char \<Rightarrow> bool" where
  "querySet c = (c0ControlSet c \<or> (of_char c :: nat) \<in> {32, 34, 35, 60, 62})"

definition pathSet :: "char \<Rightarrow> bool" where
  "pathSet c = (querySet c \<or> (of_char c :: nat) \<in> {63, 94, 96, 123, 125})"

definition userinfoSet :: "char \<Rightarrow> bool" where
  "userinfoSet c = (pathSet c \<or> (of_char c :: nat) \<in> {47, 58, 59, 61, 64, 91, 92, 93, 124})"

definition percentEncode :: "(char \<Rightarrow> bool) \<Rightarrow> string \<Rightarrow> string" where
  "percentEncode encodeSet s =
     concat (map (\<lambda>c. if encodeSet c
                       then [CHR ''%'', hexChar (of_char c div 16), hexChar (of_char c)]
                       else [c]) s)"

definition singleDot :: "string \<Rightarrow> bool" where
  "singleDot s = (map asciiLower s \<in> set [''.'', ''%2e''])"

definition doubleDot :: "string \<Rightarrow> bool" where
  "doubleDot s = (map asciiLower s \<in> set [''..'', ''.%2e'', ''%2e.'', ''%2e%2e''])"

text \<open>
  The path state: the segments are read from left to right onto \<open>path\<close> (last segment
  first). A double-dot segment removes the last segment, a single-dot segment is
  skipped; when either is the final segment an empty segment is appended.
\<close>

fun pathState :: "string list \<Rightarrow> string list \<Rightarrow> string list" where
  "pathState path [] = path"
| "pathState path [s] =
     (if doubleDot s then [] # (case path of [] \<Rightarrow> [] | _ # rest \<Rightarrow> rest)
      else if singleDot s then [] # path
      else percentEncode pathSet s # path)"
| "pathState path (s # ss) =
     (if doubleDot s then pathState (case path of [] \<Rightarrow> [] | _ # rest \<Rightarrow> rest) ss
      else if singleDot s then pathState path ss
      else pathState (percentEncode pathSet s # path) ss)"

definition parseScheme :: "string \<Rightarrow> (string \<times> string) option" where
  "parseScheme s =
     (let schemeChar = (\<lambda>c. asciiAlpha c \<or> asciiDigit c \<or> c \<in> set ''+-.'');
          name = takeWhile schemeChar s;
          rest = dropWhile schemeChar s
      in case s of
           [] \<Rightarrow> None
         | c # _ \<Rightarrow>
             if \<not> asciiAlpha c then None
             else (case rest of
                     [] \<Rightarrow> None
                   | d # rest' \<Rightarrow>
                       if d = CHR '':'' then Some (map asciiLower name, rest') else None))"

definition trimInput :: "string \<Rightarrow> string" where
  "trimInput s =
     (let c0OrSpace = (\<lambda>c. (of_char c :: nat) \<le> 32);
          trimmed = rev (dropWhile c0OrSpace (rev (dropWhile c0OrSpace s)))
      in filter (\<lambda>c. (of_char c :: nat) \<notin> {9, 10, 13}) trimmed)"

definition new_URL :: "string \<Rightarrow> error + URL" where
  "new_URL input =
     (case parseScheme (trimInput input) of
        None \<Rightarrow> Inl TypeError
      | Some (scheme, rest) \<Rightarrow>
          let beforeFragment = takeWhile (\<lambda>c. c \<noteq> CHR ''#'') rest;
              fragment = drop 1 (dropWhile (\<lambda>c. c \<noteq> CHR ''#'') rest);
              hier = takeWhile (\<lambda>c. c \<noteq> CHR ''?'') beforeFragment;
              query = drop 1 (dropWhile (\<lambda>c. c \<noteq> CHR ''?'') beforeFragment);
              hasAuthority = (take 2 hier = ''//'');
              authority =
                (if hasAuthority then takeWhile (\<lambda>c. c \<noteq> CHR ''/'') (drop 2 hier)
                 else []);
              pathPart =
                (if hasAuthority then dropWhile (\<lambda>c. c \<noteq> CHR ''/'') (drop 2 hier)
                 else hier);
              hasCredentials = (CHR ''@'' \<in> set authority);
              hostPart = rev (takeWhile (\<lambda>c. c \<noteq> CHR ''@'') (rev authority));
              userinfo =
                (if hasCredentials
                 then rev (drop 1 (dropWhile (\<lambda>c. c \<noteq> CHR ''@'') (rev authority)))
                 else [])
          in Inr \<lparr>
               protocol = scheme @ '':'',
               username = percentEncode userinfoSet (takeWhile (\<lambda>c. c \<noteq> CHR '':'') userinfo),
               password =
                 percentEncode userinfoSet (drop 1 (dropWhile (\<lambda>c. c \<noteq> CHR '':'') userinfo)),
               host = percentEncode c0ControlSet hostPart,
               pathname =
                 (case pathPart of
                    [] \<Rightarrow> []
                  | c # cs \<Rightarrow>
                      if c = CHR ''/''
                      then concat (map (\<lambda>s. CHR ''/'' # s) (rev (pathState [] (split_path cs))))
                      else percentEncode c0ControlSet pathPart),
               search = (if query = [] then [] else CHR ''?'' # percentEncode querySet query),
               hash =
                 (if fragment = [] then [] else CHR ''#'' # percentEncode fragmentSet fragment)
             \<rparr>)"

section \<open>The file protocol handler of \<open>registerAppProtocol\<close>\<close>

record request =
  url :: string

text \<open>
  The handler that \<open>registerAppProtocol\<close> passes to \<open>protocol.registerFileProtocol\<close>,
  with \<open>__dirname\<close> as a parameter. \<open>Inr f\<close>: the handler called \<open>callback\<close> with
  \<open>{ path: f }\<close>. \<open>Inl e\<close>: it threw \<open>e\<close> and never called \<open>callback\<close>.
\<close>

definition distPath :: "string \<Rightarrow> string" where
  "distPath dirname = join [dirname, ''../dist'']"

definition stripLeadingSlashes :: "string \<Rightarrow> string" where
  "stripLeadingSlashes s = dropWhile (\<lambda>c. c = CHR ''/'') s"

text \<open>
  Lines 56 to 58 of the main-process module: the request path, percent-decoded, its
  leading slashes stripped (\<open>relativePath\<close>).
\<close>

definition requestPath :: "request \<Rightarrow> error + string" where
  "requestPath request =
     (case new_URL (url request) of
        Inl e \<Rightarrow> Inl e
      | Inr u \<Rightarrow>
          (case decodeURIComponent (pathname u) of
             Inl e \<Rightarrow> Inl e
           | Inr decoded \<Rightarrow> Inr (stripLeadingSlashes decoded)))"

definition appProtocolHandler :: "string \<Rightarrow> request \<Rightarrow> error + string" where
  "appProtocolHandler dirname request =
     (case requestPath request of
        Inl e \<Rightarrow> Inl e
      | Inr relativePath \<Rightarrow>
          let filePath =
                (if relativePath = [] then join [distPath dirname, ''index.html'']
                 else if extname relativePath = []
                 then join [distPath dirname, relativePath, ''index.html'']
                 else join [distPath dirname, relativePath])
          in Inr filePath)"

text \<open>
  What the claims call a path without traversal, a plain path, and a file within a
  directory: the file's path is the directory's path or continues it after a
  separator, and no segment of the file's path is \<open>..\<close>, so that no later segment
  leads out of the directory again.
\<close>

definition plainSegment :: "string \<Rightarrow> bool" where
  "plainSegment s = (s \<noteq> [] \<and> s \<noteq> ''.'' \<and> s \<noteq> ''..'')"

definition plainPath :: "string \<Rightarrow> bool" where
  "plainPath p = list_all plainSegment (split_path p)"

text \<open>
  \<open>climbs d segs\<close>: read from a directory \<open>d\<close> levels below a starting directory,
  some \<open>..\<close> of \<open>segs\<close> steps above the starting directory.
\<close>

fun climbs :: "nat \<Rightarrow> string list \<Rightarrow> bool" where
  "climbs d [] = False"
| "climbs d (s # ss) =
     (if s = [] \<or> s = ''.'' then climbs d ss
      else if s = ''..'' then (case d of 0 \<Rightarrow> True | Suc d' \<Rightarrow> climbs d' ss)
      else climbs (Suc d) ss)"

definition within :: "string \<Rightarrow> string \<Rightarrow> bool" where
  "within root f =
     ((f = root \<or> prefix (root @ ''/'') f) \<and> ''..'' \<notin> set (split_path f))"

section \<open>The main process\<close>

text \<open>
  The calls that the module makes on Electron are effects, listed in the order they
  are made. The environment of the process is a record; \<open>dirname\<close> is \<open>__dirname\<close>.
\<close>

record privileges =
  standard :: bool
  secure :: bool
  supportFetchAPI :: bool
  corsEnabled :: bool

record customScheme =
  scheme :: string
  privileges :: privileges

record webPreferences =
  preload :: string
  contextIsolation :: bool

record windowOptions =
  width :: nat
  height :: nat
  webPreferences :: webPreferences

datatype action = Deny | Allow

datatype effect =
    RegisterSchemesAsPrivileged "customScheme list"
  | RegisterFileProtocol string "request \<Rightarrow> error + string"
  | NewBrowserWindow windowOptions
  | SetWindowOpenHandler
  | LoadURL string
  | OpenDevTools string
  | OpenExternal string
  | Quit

record environment =
  isPackaged :: bool
  VITE_DEV_SERVER_URL :: "string option"
  dirname :: string
  platform :: string

definition isDev :: "environment \<Rightarrow> bool" where
  "isDev env = (\<not> isPackaged env)"

text \<open>Top level of the module, lines 16 to 26.\<close>

definition moduleLoad :: "effect list" where
  "moduleLoad =
     [RegisterSchemesAsPrivileged
        [\<lparr>scheme = ''app'',
          privileges = \<lparr>standard = True, secure = True, supportFetchAPI = True,
                         corsEnabled = True\<rparr>\<rparr>]]"

definition startsWith :: "string \<Rightarrow> string \<Rightarrow> bool" where
  "startsWith s searchString = (take (length searchString) s = searchString)"

text \<open>The handler given to \<open>setWindowOpenHandler\<close>: its effects and the action it returns.\<close>

definition windowOpenHandler :: "string \<Rightarrow> effect list \<times> action" where
  "windowOpenHandler target =
     ((if startsWith target ''http'' then [OpenExternal target] else []), Deny)"

text \<open>\<open>a || b\<close> on an environment variable: unset and empty are both falsy.\<close>

definition orElse :: "string option \<Rightarrow> string \<Rightarrow> string" where
  "orElse a b = (case a of None \<Rightarrow> b | Some v \<Rightarrow> if v = [] then b else v)"

definition createWindow :: "environment \<Rightarrow> effect list" where
  "createWindow env =
     [NewBrowserWindow
        \<lparr>width = 1280, height = 800,
         webPreferences =
           \<lparr>preload = join [dirname env, ''preload.cjs''], contextIsolation = True\<rparr>\<rparr>,
      SetWindowOpenHandler]
     @ (if isDev env
        then [LoadURL (orElse (VITE_DEV_SERVER_URL env) ''http://localhost:3000''),
              OpenDevTools ''detach'']
        else [LoadURL ''app://./index.html''])"

definition registerAppProtocol :: "environment \<Rightarrow> effect list" where
  "registerAppProtocol env = [RegisterFileProtocol ''app'' (appProtocolHandler (dirname env))]"

text \<open>The function run when \<open>app.whenReady()\<close> resolves.\<close>

definition whenReady :: "environment \<Rightarrow> effect list" where
  "whenReady env = (if \<not> isDev env then registerAppProtocol env else []) @ createWindow env"

definition windowAllClosed :: "environment \<Rightarrow> effect list" where
  "windowAllClosed env = (if platform env \<noteq> ''darwin'' then [Quit] else [])"

definition activate :: "environment \<Rightarrow> nat \<Rightarrow> effect list" where
  "activate env openWindows = (if openWindows = 0 then createWindow env else [])"

text \<open>The effects of the process up to the end of the ready handler.\<close>

definition startup :: "environment \<Rightarrow> effect list" where
  "startup env = moduleLoad @ whenReady env"

fun isRegistration :: "effect \<Rightarrow> bool" where
  "isRegistration (RegisterSchemesAsPrivileged _) = True"
| "isRegistration (RegisterFileProtocol _ _) = True"
| "isRegistration _ = False"

fun isWindowCreation :: "effect \<Rightarrow> bool" where
  "isWindowCreation (NewBrowserWindow _) = True"
| "isWindowCreation _ = False"

text \<open>The calls of \<open>createWindow\<close> that choose and inspect the content.\<close>

fun isContentEffect :: "effect \<Rightarrow> bool" where
  "isContentEffect (LoadURL _) = True"
| "isContentEffect (OpenDevTools _) = True"
| "isContentEffect _ = False"

section \<open>The preload script\<close>

text \<open>
  The globals of a renderer's main world are a map from names to values.
  \<open>contextBridge.exposeInMainWorld\<close> binds a name that is not bound yet, and throws
  on a name that is.
\<close>

datatype jsValue = JSBoolean bool | JSObject "(string \<times> jsValue) list"

type_synonym mainWorld = "string \<rightharpoonup> jsValue"

definition exposeInMainWorld :: "string \<Rightarrow> jsValue \<Rightarrow> mainWorld \<Rightarrow> error + mainWorld" where
  "exposeInMainWorld apiKey api world =
     (case world apiKey of
        Some _ \<Rightarrow> Inl Error
      | None \<Rightarrow> Inr (world(apiKey \<mapsto> api)))"

definition preloadScript :: "mainWorld \<Rightarrow> error + mainWorld" where
  "preloadScript world =
     exposeInMainWorld ''datapackHelper'' (JSObject [(''isElectron'', JSBoolean True)]) world"

section \<open>Directories in normal form\<close>

text \<open>A root directory in normal form: \<open>/s1/.../sn\<close> with plain segments.\<close>

definition rootOf :: "string list \<Rightarrow> string" where
  "rootOf segs = CHR ''/'' # join_segments segs"

definition goodSegs :: "string list \<Rightarrow> bool" where
  "goodSegs segs = (list_all plainSegment segs \<and> list_all (\<lambda>s. CHR ''/'' \<notin> set s) segs)"

section \<open>Facts about paths\<close>

lemma split_path_nonempty: "split_path p \<noteq> []"
  by (induction p) (auto split: list.splits)

lemma split_path_append_slash:
  "split_path (a @ CHR ''/'' # b) = split_path a @ split_path b"
  by (induction a) (auto split: list.splits simp: split_path_nonempty)

lemma split_path_no_slash: "s \<in> set (split_path p) \<Longrightarrow> CHR ''/'' \<notin> set s"
  by (induction p arbitrary: s) (auto split: list.splits if_splits)

lemma join_segments_split_path: "join_segments (split_path p) = p"
proof (induction p)
  case Nil
  show ?case by simp
next
  case (Cons c p)
  show ?case
  proof (cases "c = CHR ''/''")
    case True
    with Cons show ?thesis
      by (cases "split_path p") (auto simp: split_path_nonempty)
  next
    case False
    obtain s ss where sp: "split_path p = s # ss"
      using split_path_nonempty [of p] by (cases "split_path p") auto
    with Cons False show ?thesis
      by (cases ss) auto
  qed
qed

lemma join_segments_append:
  "xs \<noteq> [] \<Longrightarrow> ys \<noteq> [] \<Longrightarrow>
   join_segments (xs @ ys) = join_segments xs @ CHR ''/'' # join_segments ys"
  by (induction xs rule: join_segments.induct) (auto simp: neq_Nil_conv)

lemma split_path_no_slash_id: "CHR ''/'' \<notin> set s \<Longrightarrow> split_path s = [s]"
  by (induction s) auto

lemma split_path_join_segments:
  "xs \<noteq> [] \<Longrightarrow> \<forall>s \<in> set xs. CHR ''/'' \<notin> set s \<Longrightarrow> split_path (join_segments xs) = xs"
proof (induction xs rule: join_segments.induct)
  case (3 s t ss)
  then show ?case
    by (simp add: split_path_append_slash split_path_no_slash_id)
qed (simp_all add: split_path_no_slash_id)

lemma normalizeString_append:
  "normalizeString a res (xs @ ys) = normalizeString a (normalizeString a res xs) ys"
  by (induction xs arbitrary: res) (auto split: list.splits)

lemma normalizeString_plain:
  "list_all plainSegment xs \<Longrightarrow> normalizeString a res xs = rev xs @ res"
  by (induction xs arbitrary: res) (auto simp: plainSegment_def)

lemma normalizeString_keeps_plain:
  "list_all plainSegment res \<Longrightarrow> list_all plainSegment (normalizeString False res xs)"
  by (induction xs arbitrary: res) (auto simp: plainSegment_def split: list.splits)

lemma normalizeString_no_slash:
  "list_all (\<lambda>s. CHR ''/'' \<notin> set s) res \<Longrightarrow> list_all (\<lambda>s. CHR ''/'' \<notin> set s) xs \<Longrightarrow>
   list_all (\<lambda>s. CHR ''/'' \<notin> set s) (normalizeString a res xs)"
  by (induction xs arbitrary: res) (auto split: list.splits)

lemma normalizeString_no_climb:
  "\<not> climbs (length t) xs \<Longrightarrow> list_all plainSegment t \<Longrightarrow>
   \<exists>t'. normalizeString False (t @ base) xs = t' @ base \<and> list_all plainSegment t'"
proof (induction xs arbitrary: t)
  case Nil
  then show ?case by simp
next
  case (Cons s ss)
  show ?case
  proof (cases "s = [] \<or> s = ''.''")
    case True
    with Cons show ?thesis by auto
  next
    case skip: False
    show ?thesis
    proof (cases "s = ''..''")
      case True
      with Cons.prems obtain r rs where t: "t = r # rs" and nc: "\<not> climbs (length rs) ss"
        by (cases t) auto
      from Cons.prems t have "plainSegment r" and "list_all plainSegment rs"
        by simp_all
      then have "r \<noteq> ''..''" and "list_all plainSegment rs"
        by (simp_all add: plainSegment_def)
      with Cons.IH [OF nc] True t show ?thesis by auto
    next
      case False
      with skip Cons.prems have nc: "\<not> climbs (length (s # t)) ss"
        by simp
      from skip False have "plainSegment s"
        by (simp add: plainSegment_def)
      with Cons.prems have pl: "list_all plainSegment (s # t)"
        by simp
      from Cons.IH [OF nc pl] skip False show ?thesis by auto
    qed
  qed
qed


lemma join_segments_nonempty: "xs \<noteq> [] \<Longrightarrow> hd xs \<noteq> [] \<Longrightarrow> join_segments xs \<noteq> []"
  by (induction xs rule: join_segments.induct) auto

lemma normalize_nonempty: "normalize p \<noteq> []"
  by (simp add: normalize_def Let_def)

lemma join_nonempty: "join args \<noteq> []"
  by (simp add: join_def Let_def normalize_nonempty)

lemma distPath_nonempty: "distPath dir \<noteq> []"
  by (simp add: distPath_def join_nonempty)

lemma normalize_below_root:
  assumes "goodSegs segs"
  shows "normalize (rootOf segs @ CHR ''/'' # x) =
         (let st = normalizeString False (rev segs) (split_path x)
          in if join_segments (rev st) = [] then ''/''
             else CHR ''/'' # join_segments (rev st)
                  @ (if last (CHR ''/'' # x) = CHR ''/'' then ''/'' else []))"
proof -
  have sp: "split_path (rootOf segs @ CHR ''/'' # x) = [] # split_path (join_segments segs) @ split_path x"
    by (simp add: rootOf_def split_path_append_slash)
  have ns: "normalizeString False [] (split_path (join_segments segs)) = rev segs"
  proof (cases "segs = []")
    case True
    then show ?thesis by simp
  next
    case False
    with assms have "split_path (join_segments segs) = segs"
      by (intro split_path_join_segments) (auto simp: goodSegs_def list_all_iff)
    with assms show ?thesis
      by (simp add: normalizeString_plain goodSegs_def)
  qed
  have st: "normalizeString False [] (split_path (rootOf segs @ CHR ''/'' # x)) =
            normalizeString False (rev segs) (split_path x)"
    by (simp add: sp normalizeString_append ns)
  have ab: "isAbsolute (rootOf segs @ CHR ''/'' # x)"
    by (simp add: isAbsolute_def rootOf_def)
  have la: "last (rootOf segs @ CHR ''/'' # x) = last (CHR ''/'' # x)"
    by simp
  show ?thesis
    by (simp add: normalize_def Let_def ab st del: last.simps)
qed

lemma distPath_root:
  assumes "isAbsolute dir"
  shows "\<exists>segs. goodSegs segs \<and> segs \<noteq> [] \<and> distPath dir = rootOf segs"
proof -
  from assms obtain d where d: "dir = CHR ''/'' # d"
    by (cases dir) (auto simp: isAbsolute_def)
  define st where "st = normalizeString False [] (split_path d)"
  define up where "up = (case st of [] \<Rightarrow> [] | r # rs \<Rightarrow> rs)"
  have "list_all (\<lambda>s. CHR ''/'' \<notin> set s) (split_path d)"
    by (simp add: list_all_iff split_path_no_slash)
  then have good_st: "list_all plainSegment st \<and> list_all (\<lambda>s. CHR ''/'' \<notin> set s) st"
    unfolding st_def
    by (simp add: normalizeString_keeps_plain normalizeString_no_slash)
  then have good_up: "list_all plainSegment up \<and> list_all (\<lambda>s. CHR ''/'' \<notin> set s) up"
    by (cases st) (auto simp: up_def)
  have pop: "normalizeString False st [''..'', ''dist''] = ''dist'' # up"
    using good_st by (cases st) (auto simp: up_def plainSegment_def)
  have joined: "join [dir, ''../dist''] = normalize (dir @ ''/../dist'')"
    by (simp add: join_def d)
  have sp: "split_path (dir @ ''/../dist'') = [] # split_path d @ [''..'', ''dist'']"
    by (simp add: d split_path_append_slash)
  have "normalizeString False [] (split_path (dir @ ''/../dist'')) =
        normalizeString False [] (split_path d @ [''..'', ''dist''])"
    by (simp add: sp)
  also have "\<dots> = normalizeString False st [''..'', ''dist'']"
    by (simp only: normalizeString_append st_def)
  also have "\<dots> = ''dist'' # up"
    by (rule pop)
  finally have ns: "normalizeString False [] (split_path (dir @ ''/../dist'')) = ''dist'' # up" .
  have q: "join_segments (rev (''dist'' # up)) \<noteq> []"
    by (cases "rev up" rule: join_segments.cases) auto
  have ab: "isAbsolute (dir @ ''/../dist'')"
    by (simp add: d isAbsolute_def)
  have "distPath dir = CHR ''/'' # join_segments (rev (''dist'' # up))"
    using q by (simp add: distPath_def joined normalize_def Let_def ns ab)
  moreover have "goodSegs (rev (''dist'' # up))"
    using good_up by (simp add: goodSegs_def plainSegment_def)
  ultimately show ?thesis
    by (intro exI [of _ "rev (''dist'' # up)"]) (simp add: rootOf_def)
qed


lemma split_path_last_empty: "p = [] \<or> last p = CHR ''/'' \<Longrightarrow> last (split_path p) = []"
proof (induction p)
  case Nil
  show ?case by simp
next
  case (Cons c p)
  obtain s ss where sp: "split_path p = s # ss"
    using split_path_nonempty [of p] by (cases "split_path p") auto
  show ?case
  proof (cases "p = []")
    case True
    with Cons.prems show ?thesis by simp
  next
    case False
    with Cons have "last (split_path p) = []" by simp
    moreover from False join_segments_split_path [of p] have "split_path p \<noteq> [[]]"
      by auto
    ultimately show ?thesis
      using sp by (cases ss) auto
  qed
qed

lemma plainPath_last: "plainPath p \<Longrightarrow> p \<noteq> [] \<and> last p \<noteq> CHR ''/''"
proof -
  assume pl: "plainPath p"
  have "last (split_path p) \<in> set (split_path p)"
    by (simp add: split_path_nonempty)
  with pl have "plainSegment (last (split_path p))"
    by (simp add: plainPath_def list_all_iff)
  then have "last (split_path p) \<noteq> []"
    by (simp add: plainSegment_def)
  then show ?thesis
    using split_path_last_empty [of p] by blast
qed

lemma normalize_plain_below_root:
  assumes good: "goodSegs segs" and ne: "segs \<noteq> []" and pl: "plainPath x"
  shows "normalize (rootOf segs @ CHR ''/'' # x) = rootOf segs @ CHR ''/'' # x"
proof -
  have st: "normalizeString False (rev segs) (split_path x) = rev (split_path x) @ rev segs"
    using pl by (simp add: normalizeString_plain plainPath_def)
  have js: "join_segments (segs @ split_path x) = join_segments segs @ CHR ''/'' # x"
    using ne by (simp add: join_segments_append split_path_nonempty join_segments_split_path)
  from plainPath_last [OF pl] have la: "last (CHR ''/'' # x) \<noteq> CHR ''/''"
    by simp
  show ?thesis
    unfolding normalize_below_root [OF good] Let_def st
    using la by (simp add: js rootOf_def del: last.simps)
qed

lemma climbs_plain: "list_all plainSegment ys \<Longrightarrow> \<not> climbs d ys"
  by (induction ys arbitrary: d) (auto simp: plainSegment_def)

lemma climbs_append_plain:
  "\<not> climbs d xs \<Longrightarrow> list_all plainSegment ys \<Longrightarrow> \<not> climbs d (xs @ ys)"
  by (induction xs arbitrary: d) (auto simp: climbs_plain split: nat.splits)

lemma split_path_trailing_slash: "split_path (p @ ''/'') = split_path p @ [[]]"
  by (simp add: split_path_append_slash)

lemma normalize_no_dotdot:
  assumes good: "goodSegs segs"
  shows "''..'' \<notin> set (split_path (normalize (rootOf segs @ CHR ''/'' # x)))"
proof -
  define st where "st = normalizeString False (rev segs) (split_path x)"
  have "list_all (\<lambda>s. CHR ''/'' \<notin> set s) (split_path x)"
    by (simp add: list_all_iff split_path_no_slash)
  with good have ns: "list_all (\<lambda>s. CHR ''/'' \<notin> set s) st"
    unfolding st_def by (intro normalizeString_no_slash) (simp_all add: goodSegs_def)
  from good have pl: "list_all plainSegment st"
    unfolding st_def by (intro normalizeString_keeps_plain) (simp add: goodSegs_def)
  then have nd: "''..'' \<notin> set st"
    by (auto simp: list_all_iff plainSegment_def)
  show ?thesis
  proof (cases "join_segments (rev st) = []")
    case True
    then show ?thesis
      unfolding normalize_below_root [OF good] Let_def st_def [symmetric]
      by simp
  next
    case False
    then have ne: "rev st \<noteq> []"
      by auto
    with ns have sp: "split_path (join_segments (rev st)) = rev st"
      by (intro split_path_join_segments) (auto simp: list_all_iff)
    have a: "set (split_path (CHR ''/'' # join_segments (rev st))) \<subseteq> insert [] (set st)"
      using sp by auto
    have b: "set (split_path (CHR ''/'' # join_segments (rev st) @ ''/'')) \<subseteq> insert [] (set st)"
      using sp by (auto simp: split_path_trailing_slash)
    from a b nd have
      "''..'' \<notin> set (split_path (CHR ''/'' # join_segments (rev st)))"
      "''..'' \<notin> set (split_path (CHR ''/'' # join_segments (rev st) @ ''/''))"
      by auto
    with False show ?thesis
      unfolding normalize_below_root [OF good] Let_def st_def [symmetric]
      by (simp del: last.simps split_path.simps)
  qed
qed

lemma normalize_within_root:
  assumes good: "goodSegs segs" and ne: "segs \<noteq> []" and nc: "\<not> climbs 0 (split_path x)"
  shows "within (rootOf segs) (normalize (rootOf segs @ CHR ''/'' # x))"
proof -
  from normalizeString_no_climb [of "[]" "split_path x" "rev segs"] nc
  obtain t where st: "normalizeString False (rev segs) (split_path x) = t @ rev segs"
    by auto
  from good ne have "hd segs \<noteq> []"
    by (cases segs) (auto simp: goodSegs_def plainSegment_def)
  with ne have q: "join_segments segs \<noteq> []"
    by (rule join_segments_nonempty)
  have below: "normalize (rootOf segs @ CHR ''/'' # x) = rootOf segs \<or>
               prefix (rootOf segs @ ''/'') (normalize (rootOf segs @ CHR ''/'' # x))"
  proof (cases "t = []")
    case True
    with q show ?thesis
      unfolding normalize_below_root [OF good] Let_def st
      by (simp add: rootOf_def del: last.simps)
  next
    case False
    with ne have "join_segments (segs @ rev t) = join_segments segs @ CHR ''/'' # join_segments (rev t)"
      by (simp add: join_segments_append)
    then show ?thesis
      unfolding normalize_below_root [OF good] Let_def st
      by (simp add: rootOf_def del: last.simps)
  qed
  with normalize_no_dotdot [OF good, of x] show ?thesis
    unfolding within_def by blast
qed

lemma join2: "a \<noteq> [] \<Longrightarrow> b \<noteq> [] \<Longrightarrow> join [a, b] = normalize (a @ CHR ''/'' # b)"
  by (simp add: join_def)

lemma join3:
  "a \<noteq> [] \<Longrightarrow> b \<noteq> [] \<Longrightarrow> c \<noteq> [] \<Longrightarrow>
   join [a, b, c] = normalize (a @ CHR ''/'' # b @ CHR ''/'' # c)"
  by (simp add: join_def)

lemma split_path_index: "split_path (p @ ''/index.html'') = split_path p @ [''index.html'']"
  by (simp add: split_path_append_slash)

lemma plainPath_index: "plainPath ''index.html''"
  by (simp add: plainPath_def plainSegment_def)

lemma plainPath_append_index: "plainPath p \<Longrightarrow> plainPath (p @ ''/index.html'')"
  unfolding plainPath_def split_path_index by (simp add: plainSegment_def)

lemma join_index_literal:
  assumes "isAbsolute dir"
  shows "join [distPath dir, ''index.html''] = distPath dir @ ''/index.html''"
proof -
  from distPath_root [OF assms] obtain segs
    where segs: "goodSegs segs" "segs \<noteq> []" "distPath dir = rootOf segs"
    by blast
  have "join [distPath dir, ''index.html''] = normalize (distPath dir @ ''/index.html'')"
    by (simp add: join2 distPath_nonempty)
  also have "\<dots> = distPath dir @ ''/index.html''"
    unfolding segs(3) using normalize_plain_below_root [OF segs(1,2) plainPath_index] by simp
  finally show ?thesis .
qed

lemma join_literal:
  assumes "isAbsolute dir" and "plainPath x"
  shows "normalize (distPath dir @ CHR ''/'' # x) = distPath dir @ CHR ''/'' # x"
proof -
  from distPath_root [OF assms(1)] obtain segs
    where segs: "goodSegs segs" "segs \<noteq> []" "distPath dir = rootOf segs"
    by blast
  show ?thesis
    unfolding segs(3) by (rule normalize_plain_below_root [OF segs(1,2) assms(2)])
qed

lemma join_within:
  assumes "isAbsolute dir" and "\<not> climbs 0 (split_path x)"
  shows "within (distPath dir) (normalize (distPath dir @ CHR ''/'' # x))"
proof -
  from distPath_root [OF assms(1)] obtain segs
    where segs: "goodSegs segs" "segs \<noteq> []" "distPath dir = rootOf segs"
    by blast
  show ?thesis
    unfolding segs(3) by (rule normalize_within_root [OF segs(1,2) assms(2)])
qed

lemma handler_cases:
  assumes "requestPath req = Inr P"
  shows "appProtocolHandler dir req =
         Inr (if P = [] then normalize (distPath dir @ ''/index.html'')
              else if extname P = [] then normalize (distPath dir @ CHR ''/'' # P @ ''/index.html'')
              else normalize (distPath dir @ CHR ''/'' # P))"
  using assms by (simp add: appProtocolHandler_def join2 join3 distPath_nonempty)

lemma appProtocolHandler_calls_back:
  "requestPath req = Inr P \<Longrightarrow> \<exists>f. appProtocolHandler dir req = Inr f"
  by (simp add: appProtocolHandler_def)

lemma windowOpenHandler_denies: "snd (windowOpenHandler target) = Deny"
  by (simp add: windowOpenHandler_def)

section \<open>The claims\<close>

text \<open>
  C1, as stated, fails. The request \<open>app://./..%2f..%2fetc%2fpasswd\<close> has the decoded
  path \<open>../../etc/passwd\<close>, with \<open>..\<close> segments. With \<open>__dirname = /app/electron\<close>
  the handler does not reject it: it calls back with \<open>/etc/passwd/index.html\<close>, which
  is outside \<open>/app/dist\<close>.
\<close>

theorem C1_traversal_escapes:
  "requestPath \<lparr>url = ''app://./..%2f..%2fetc%2fpasswd''\<rparr> = Inr ''../../etc/passwd'' \<and>
   ''..'' \<in> set (split_path ''../../etc/passwd'') \<and>
   distPath ''/app/electron'' = ''/app/dist'' \<and>
   appProtocolHandler ''/app/electron'' \<lparr>url = ''app://./..%2f..%2fetc%2fpasswd''\<rparr>
     = Inr ''/etc/passwd/index.html'' \<and>
   \<not> within (distPath ''/app/electron'') ''/etc/passwd/index.html''"
  by code_simp

text \<open>
  C1, amended. For every request path \<open>P\<close> whose \<open>..\<close> segments never step above the
  directory \<open>P\<close> starts from (each \<open>..\<close> has a segment of \<open>P\<close> before it to cancel),
  the handler calls back, and \<open>path.join\<close> normalises the path so that the resolved
  file is within \<open>distPath\<close>: its path is \<open>distPath\<close> or continues \<open>distPath\<close>
  after a separator, and no \<open>..\<close> segment is left in it. Nothing is said of the
  other paths.
\<close>

theorem C1_within_distRoot:
  assumes "isAbsolute dir" and "requestPath req = Inr P" and "\<not> climbs 0 (split_path P)"
  shows "\<exists>f. appProtocolHandler dir req = Inr f \<and> within (distPath dir) f"
proof -
  have idx: "\<not> climbs 0 (split_path ''index.html'')"
    by simp
  have route: "\<not> climbs 0 (split_path (P @ ''/index.html''))"
    unfolding split_path_index
    using assms(3) by (rule climbs_append_plain) (simp add: plainSegment_def)
  show ?thesis
    unfolding handler_cases [OF assms(2)]
    using join_within [OF assms(1) idx] join_within [OF assms(1) route]
      join_within [OF assms(1) assms(3)]
    by simp
qed

theorem C1_within_distRoot_witness:
  "isAbsolute ''/app/electron'' \<and>
   requestPath \<lparr>url = ''app://./a%2f..%2fb.js''\<rparr> = Inr ''a/../b.js'' \<and>
   \<not> climbs 0 (split_path ''a/../b.js'') \<and>
   appProtocolHandler ''/app/electron'' \<lparr>url = ''app://./a%2f..%2fb.js''\<rparr> = Inr ''/app/dist/b.js'' \<and>
   within (distPath ''/app/electron'') ''/app/dist/b.js''"
proof -
  have a: "isAbsolute ''/app/electron''" by (simp add: isAbsolute_def)
  have r: "requestPath \<lparr>url = ''app://./a%2f..%2fb.js''\<rparr> = Inr ''a/../b.js''" by code_simp
  have c: "\<not> climbs 0 (split_path ''a/../b.js'')" by code_simp
  have h: "appProtocolHandler ''/app/electron'' \<lparr>url = ''app://./a%2f..%2fb.js''\<rparr> = Inr ''/app/dist/b.js''"
    by code_simp
  from C1_within_distRoot [OF a r c] h have "within (distPath ''/app/electron'') ''/app/dist/b.js''"
    by simp
  with a r c h show ?thesis by simp
qed

text \<open>
  C2 at the input \<open>httpx://example.com/\<close>: the scheme of the URL is \<open>httpx\<close>, neither
  \<open>http\<close> nor \<open>https\<close>, and the window-open handler hands the URL to
  \<open>shell.openExternal\<close> all the same, because the URL starts with the letters
  \<open>http\<close>. The handler denies the new window, as it does for every URL.
\<close>

theorem C2_opens_other_scheme:
  "windowOpenHandler ''httpx://example.com/''
     = ([OpenExternal ''httpx://example.com/''], Deny) \<and>
   map_sum id protocol (new_URL ''httpx://example.com/'') = Inr ''httpx:''"
proof -
  have "map_sum id protocol (new_URL ''httpx://example.com/'') = Inr ''httpx:''"
    by code_simp
  then show ?thesis
    by (simp add: windowOpenHandler_def startsWith_def)
qed

text \<open>
  C3, as stated, fails. The request \<open>app://./x%2f..%2fy\<close> has the decoded path
  \<open>x/../y\<close>, which is not empty and has no extension. The handler calls back with
  \<open>/app/dist/y/index.html\<close>, not with \<open>/app/dist/x/../y/index.html\<close>.
\<close>

theorem C3_not_literal:
  "requestPath \<lparr>url = ''app://./x%2f..%2fy''\<rparr> = Inr ''x/../y'' \<and>
   extname ''x/../y'' = [] \<and>
   distPath ''/app/electron'' = ''/app/dist'' \<and>
   appProtocolHandler ''/app/electron'' \<lparr>url = ''app://./x%2f..%2fy''\<rparr>
     = Inr ''/app/dist/y/index.html'' \<and>
   ''/app/dist/y/index.html'' \<noteq> distPath ''/app/electron'' @ ''/'' @ ''x/../y'' @ ''/index.html''"
  by code_simp

text \<open>
  C3, amended. For every non-empty request path \<open>P\<close> without an extension the
  handler calls back with \<open><distRoot>/P/index.html\<close> as \<open>path.join\<close> normalises it
  (empty segments and \<open>.\<close> dropped, each \<open>..\<close> cancelling the segment before it);
  when \<open>P\<close> has no empty segment, no \<open>.\<close> and no \<open>..\<close>, this is
  \<open><distRoot>/P/index.html\<close> character for character.
\<close>

theorem C3_route_index:
  assumes "requestPath req = Inr P" and "P \<noteq> []" and "extname P = []"
  shows "appProtocolHandler dir req = Inr (normalize (distPath dir @ ''/'' @ P @ ''/index.html'')) \<and>
         (isAbsolute dir \<and> plainPath P \<longrightarrow>
            appProtocolHandler dir req = Inr (distPath dir @ ''/'' @ P @ ''/index.html''))"
  using assms join_literal [of dir "P @ ''/index.html''"]
  by (simp add: handler_cases plainPath_append_index)

theorem C3_route_index_witness:
  "requestPath \<lparr>url = ''app://./docs/about''\<rparr> = Inr ''docs/about'' \<and>
   extname ''docs/about'' = [] \<and> isAbsolute ''/app/electron'' \<and> plainPath ''docs/about'' \<and>
   appProtocolHandler ''/app/electron'' \<lparr>url = ''app://./docs/about''\<rparr>
     = Inr ''/app/dist/docs/about/index.html''"
proof -
  have r: "requestPath \<lparr>url = ''app://./docs/about''\<rparr> = Inr ''docs/about''" by code_simp
  have n: "''docs/about'' \<noteq> []" by simp
  have e: "extname ''docs/about'' = []" by code_simp
  have a: "isAbsolute ''/app/electron''" by (simp add: isAbsolute_def)
  have p: "plainPath ''docs/about''" by code_simp
  have d: "distPath ''/app/electron'' = ''/app/dist''" by code_simp
  from C3_route_index [OF r n e, of "''/app/electron''"] a p
  have "appProtocolHandler ''/app/electron'' \<lparr>url = ''app://./docs/about''\<rparr>
          = Inr (distPath ''/app/electron'' @ ''/'' @ ''docs/about'' @ ''/index.html'')"
    by blast
  with r e a p show ?thesis by (simp add: d)
qed

text \<open>
  C4. A request whose path is empty once percent-decoded and stripped of its leading
  slashes is answered with \<open><distRoot>/index.html\<close>: the handler calls back with
  \<open>distPath\<close> followed by \<open>/index.html\<close>, character for character (\<open>__dirname\<close>
  is an absolute path).
\<close>

theorem C4_empty_path:
  assumes "isAbsolute dir" and "requestPath req = Inr []"
  shows "appProtocolHandler dir req = Inr (distPath dir @ ''/index.html'')"
  using assms(2) join_index_literal [OF assms(1)]
  by (simp add: appProtocolHandler_def)

theorem C4_empty_path_witness:
  "isAbsolute ''/app/electron'' \<and> requestPath \<lparr>url = ''app://./''\<rparr> = Inr [] \<and>
   appProtocolHandler ''/app/electron'' \<lparr>url = ''app://./''\<rparr> = Inr ''/app/dist/index.html''"
proof -
  have a: "isAbsolute ''/app/electron''" by (simp add: isAbsolute_def)
  have r: "requestPath \<lparr>url = ''app://./''\<rparr> = Inr []" by code_simp
  have d: "distPath ''/app/electron'' = ''/app/dist''" by code_simp
  from C4_empty_path [OF a r] show ?thesis using a r by (simp add: d)
qed

text \<open>
  C5, as stated, fails. The request \<open>app://./js%2f..%2fmain.js\<close> has the decoded
  path \<open>js/../main.js\<close>, with the extension \<open>.js\<close>. The handler calls back with
  \<open>/app/dist/main.js\<close>, not with \<open>/app/dist/js/../main.js\<close>: the path is changed.
\<close>

theorem C5_not_verbatim:
  "requestPath \<lparr>url = ''app://./js%2f..%2fmain.js''\<rparr> = Inr ''js/../main.js'' \<and>
   extname ''js/../main.js'' = ''.js'' \<and>
   distPath ''/app/electron'' = ''/app/dist'' \<and>
   appProtocolHandler ''/app/electron'' \<lparr>url = ''app://./js%2f..%2fmain.js''\<rparr>
     = Inr ''/app/dist/main.js'' \<and>
   ''/app/dist/main.js'' \<noteq> distPath ''/app/electron'' @ ''/'' @ ''js/../main.js''"
  by code_simp

text \<open>
  C5, amended. For every request path \<open>P\<close> with an extension the handler calls back
  with \<open><distRoot>/P\<close> as \<open>path.join\<close> normalises it; when \<open>P\<close> has no empty
  segment, no \<open>.\<close> and no \<open>..\<close>, this is \<open><distRoot>/P\<close> with \<open>P\<close> unchanged.
\<close>

theorem C5_static_asset:
  assumes "requestPath req = Inr P" and "extname P \<noteq> []"
  shows "appProtocolHandler dir req = Inr (normalize (distPath dir @ ''/'' @ P)) \<and>
         (isAbsolute dir \<and> plainPath P \<longrightarrow>
            appProtocolHandler dir req = Inr (distPath dir @ ''/'' @ P))"
proof -
  from assms(2) have "P \<noteq> []"
    by (auto simp: extname_def basename_part_def)
  with assms show ?thesis
    using join_literal [of dir P] by (simp add: handler_cases)
qed

theorem C5_static_asset_witness:
  "requestPath \<lparr>url = ''app://./assets/app.js''\<rparr> = Inr ''assets/app.js'' \<and>
   extname ''assets/app.js'' = ''.js'' \<and> isAbsolute ''/app/electron'' \<and> plainPath ''assets/app.js'' \<and>
   appProtocolHandler ''/app/electron'' \<lparr>url = ''app://./assets/app.js''\<rparr>
     = Inr ''/app/dist/assets/app.js''"
proof -
  have r: "requestPath \<lparr>url = ''app://./assets/app.js''\<rparr> = Inr ''assets/app.js''" by code_simp
  have e: "extname ''assets/app.js'' = ''.js''" by code_simp
  then have n: "extname ''assets/app.js'' \<noteq> []" by simp
  have a: "isAbsolute ''/app/electron''" by (simp add: isAbsolute_def)
  have p: "plainPath ''assets/app.js''" by code_simp
  have d: "distPath ''/app/electron'' = ''/app/dist''" by code_simp
  from C5_static_asset [OF r n, of "''/app/electron''"] a p
  have "appProtocolHandler ''/app/electron'' \<lparr>url = ''app://./assets/app.js''\<rparr>
          = Inr (distPath ''/app/electron'' @ ''/'' @ ''assets/app.js'')"
    by blast
  with r e a p show ?thesis by (simp add: d)
qed

text \<open>
  C6, as stated, fails. In development the scheme \<open>app\<close> is registered all the same:
  the module declares it privileged when it is loaded, whatever the mode. And in a
  packaged application this registration of the scheme is not among the calls of the
  ready handler.
\<close>

theorem C6_scheme_declared_at_load:
  "\<not> isPackaged \<lparr>isPackaged = False, VITE_DEV_SERVER_URL = None,
                 dirname = ''/app/electron'', platform = ''linux''\<rparr> \<and>
   RegisterSchemesAsPrivileged
      [\<lparr>scheme = ''app'',
        privileges = \<lparr>standard = True, secure = True, supportFetchAPI = True,
                       corsEnabled = True\<rparr>\<rparr>]
     \<in> set (startup \<lparr>isPackaged = False, VITE_DEV_SERVER_URL = None,
                      dirname = ''/app/electron'', platform = ''linux''\<rparr>) \<and>
   isPackaged \<lparr>isPackaged = True, VITE_DEV_SERVER_URL = None,
               dirname = ''/app/electron'', platform = ''linux''\<rparr> \<and>
   RegisterSchemesAsPrivileged
      [\<lparr>scheme = ''app'',
        privileges = \<lparr>standard = True, secure = True, supportFetchAPI = True,
                       corsEnabled = True\<rparr>\<rparr>]
     \<notin> set (whenReady \<lparr>isPackaged = True, VITE_DEV_SERVER_URL = None,
                        dirname = ''/app/electron'', platform = ''linux''\<rparr>)"
  by (simp add: startup_def moduleLoad_def whenReady_def registerAppProtocol_def
        createWindow_def isDev_def)

text \<open>
  C6, amended. The module registers the scheme \<open>app\<close> as privileged (standard,
  secure, fetch API, CORS) when it is loaded, before the ready signal, packaged or
  not, and the ready handler never does. On the ready signal the resolver of the
  scheme is registered (\<open>registerFileProtocol\<close>) exactly when the application is
  packaged; in development the ready handler registers nothing. Every registration
  comes before every window creation.
\<close>

theorem C6_registration_order:
  "startup env =
     RegisterSchemesAsPrivileged
       [\<lparr>scheme = ''app'',
         privileges = \<lparr>standard = True, secure = True, supportFetchAPI = True,
                        corsEnabled = True\<rparr>\<rparr>]
     # whenReady env \<and>
   (\<forall>schemes. RegisterSchemesAsPrivileged schemes \<notin> set (whenReady env)) \<and>
   (RegisterFileProtocol ''app'' (appProtocolHandler (dirname env)) \<in> set (whenReady env)
      \<longleftrightarrow> isPackaged env) \<and>
   (list_ex isRegistration (whenReady env) \<longleftrightarrow> isPackaged env) \<and>
   (\<forall>i j. i < length (startup env) \<and> j < length (startup env) \<and>
          isRegistration (startup env ! i) \<and> isWindowCreation (startup env ! j) \<longrightarrow> i < j)"
proof (intro conjI allI impI)
  show "startup env =
     RegisterSchemesAsPrivileged
       [\<lparr>scheme = ''app'',
         privileges = \<lparr>standard = True, secure = True, supportFetchAPI = True,
                        corsEnabled = True\<rparr>\<rparr>]
     # whenReady env"
    by (simp add: startup_def moduleLoad_def)
  show "RegisterSchemesAsPrivileged schemes \<notin> set (whenReady env)" for schemes
    by (simp add: whenReady_def isDev_def registerAppProtocol_def createWindow_def)
  show "RegisterFileProtocol ''app'' (appProtocolHandler (dirname env)) \<in> set (whenReady env)
      \<longleftrightarrow> isPackaged env"
    by (simp add: whenReady_def isDev_def registerAppProtocol_def createWindow_def)
  show "list_ex isRegistration (whenReady env) \<longleftrightarrow> isPackaged env"
    by (simp add: whenReady_def isDev_def registerAppProtocol_def createWindow_def)
next
  fix i j
  assume h: "i < length (startup env) \<and> j < length (startup env) \<and>
          isRegistration (startup env ! i) \<and> isWindowCreation (startup env ! j)"
  show "i < j"
  proof (cases "isPackaged env")
    case True
    then have s: "startup env =
       [hd moduleLoad, RegisterFileProtocol ''app'' (appProtocolHandler (dirname env))]
       @ createWindow env"
      by (simp add: startup_def moduleLoad_def whenReady_def isDev_def registerAppProtocol_def)
    from True have c: "createWindow env =
       [NewBrowserWindow
        \<lparr>width = 1280, height = 800,
         webPreferences =
           \<lparr>preload = join [dirname env, ''preload.cjs''], contextIsolation = True\<rparr>\<rparr>,
      SetWindowOpenHandler, LoadURL ''app://./index.html'']"
      by (simp add: createWindow_def isDev_def)
    from h have "i < 5" "j < 5" by (simp_all add: s c)
    with h show ?thesis
      unfolding s c
      by (auto simp: less_Suc_eq numeral_eq_Suc moduleLoad_def)
  next
    case False
    then have s: "startup env = hd moduleLoad # createWindow env"
      by (simp add: startup_def moduleLoad_def whenReady_def isDev_def)
    from False have c: "createWindow env =
       [NewBrowserWindow
        \<lparr>width = 1280, height = 800,
         webPreferences =
           \<lparr>preload = join [dirname env, ''preload.cjs''], contextIsolation = True\<rparr>\<rparr>,
      SetWindowOpenHandler, LoadURL (orElse (VITE_DEV_SERVER_URL env) ''http://localhost:3000''),
              OpenDevTools ''detach'']"
      by (simp add: createWindow_def isDev_def)
    from h have "i < 5" "j < 5" by (simp_all add: s c)
    with h show ?thesis
      unfolding s c
      by (auto simp: less_Suc_eq numeral_eq_Suc moduleLoad_def)
  qed
qed

theorem C6_registration_order_witness:
  "startup \<lparr>isPackaged = True, VITE_DEV_SERVER_URL = None,
            dirname = ''/app/electron'', platform = ''linux''\<rparr> ! 0 =
     RegisterSchemesAsPrivileged
       [\<lparr>scheme = ''app'',
         privileges = \<lparr>standard = True, secure = True, supportFetchAPI = True,
                        corsEnabled = True\<rparr>\<rparr>] \<and>
   startup \<lparr>isPackaged = True, VITE_DEV_SERVER_URL = None,
            dirname = ''/app/electron'', platform = ''linux''\<rparr> ! 1 =
     RegisterFileProtocol ''app'' (appProtocolHandler ''/app/electron'') \<and>
   isRegistration (startup \<lparr>isPackaged = True, VITE_DEV_SERVER_URL = None,
                            dirname = ''/app/electron'', platform = ''linux''\<rparr> ! 1) \<and>
   isWindowCreation (startup \<lparr>isPackaged = True, VITE_DEV_SERVER_URL = None,
                              dirname = ''/app/electron'', platform = ''linux''\<rparr> ! 2) \<and>
   (1::nat) < 2 \<and>
   \<not> list_ex isRegistration
       (whenReady \<lparr>isPackaged = False, VITE_DEV_SERVER_URL = None,
                   dirname = ''/app/electron'', platform = ''linux''\<rparr>)"
proof -
  let ?p = "\<lparr>isPackaged = True, VITE_DEV_SERVER_URL = None,
             dirname = ''/app/electron'', platform = ''linux''\<rparr>"
  let ?d = "\<lparr>isPackaged = False, VITE_DEV_SERVER_URL = None,
             dirname = ''/app/electron'', platform = ''linux''\<rparr>"
  have s: "startup ?p =
     [hd moduleLoad, RegisterFileProtocol ''app'' (appProtocolHandler ''/app/electron'')]
     @ createWindow ?p"
    by (simp add: startup_def moduleLoad_def whenReady_def isDev_def registerAppProtocol_def)
  have z: "startup ?p ! 0 = RegisterSchemesAsPrivileged
       [\<lparr>scheme = ''app'',
         privileges = \<lparr>standard = True, secure = True, supportFetchAPI = True,
                        corsEnabled = True\<rparr>\<rparr>]"
    using C6_registration_order [of ?p] by simp
  have o: "startup ?p ! 1 = RegisterFileProtocol ''app'' (appProtocolHandler ''/app/electron'')"
    by (simp add: s)
  have r: "isRegistration (startup ?p ! 1)"
    by (simp add: s)
  have w: "isWindowCreation (startup ?p ! 2)"
    by (simp add: s createWindow_def numeral_2_eq_2)
  have l: "1 < length (startup ?p) \<and> 2 < length (startup ?p)"
    by (simp add: s createWindow_def isDev_def)
  from C6_registration_order [of ?p] l r w have "(1::nat) < 2"
    by blast
  with C6_registration_order [of ?d] z o r w show ?thesis
    by simp
qed

text \<open>
  C7. In development \<open>createWindow\<close> loads \<open>http://localhost:3000\<close> when
  \<open>VITE_DEV_SERVER_URL\<close> is unset and the value of the variable when it is set (and
  not empty), then opens the developer tools detached. In a packaged application it
  loads \<open>app://./index.html\<close> and opens no developer tools.
\<close>

theorem C7_content_source:
  "(\<not> isPackaged env \<and> VITE_DEV_SERVER_URL env = None \<longrightarrow>
      filter isContentEffect (createWindow env)
        = [LoadURL ''http://localhost:3000'', OpenDevTools ''detach'']) \<and>
   (\<not> isPackaged env \<and> VITE_DEV_SERVER_URL env = Some v \<and> v \<noteq> [] \<longrightarrow>
      filter isContentEffect (createWindow env) = [LoadURL v, OpenDevTools ''detach'']) \<and>
   (isPackaged env \<longrightarrow>
      filter isContentEffect (createWindow env) = [LoadURL ''app://./index.html''])"
  by (simp add: createWindow_def isDev_def orElse_def)

theorem C7_content_source_witness:
  "filter isContentEffect
     (createWindow \<lparr>isPackaged = False, VITE_DEV_SERVER_URL = None,
                    dirname = ''/app/electron'', platform = ''linux''\<rparr>)
     = [LoadURL ''http://localhost:3000'', OpenDevTools ''detach''] \<and>
   filter isContentEffect
     (createWindow \<lparr>isPackaged = False, VITE_DEV_SERVER_URL = Some ''http://localhost:5173'',
                    dirname = ''/app/electron'', platform = ''linux''\<rparr>)
     = [LoadURL ''http://localhost:5173'', OpenDevTools ''detach''] \<and>
   filter isContentEffect
     (createWindow \<lparr>isPackaged = True, VITE_DEV_SERVER_URL = None,
                    dirname = ''/app/electron'', platform = ''linux''\<rparr>)
     = [LoadURL ''app://./index.html'']"
  using
    C7_content_source [of "\<lparr>isPackaged = False, VITE_DEV_SERVER_URL = None,
                    dirname = ''/app/electron'', platform = ''linux''\<rparr>" "[]"]
    C7_content_source [of "\<lparr>isPackaged = False, VITE_DEV_SERVER_URL = Some ''http://localhost:5173'',
                    dirname = ''/app/electron'', platform = ''linux''\<rparr>" "''http://localhost:5173''"]
    C7_content_source [of "\<lparr>isPackaged = True, VITE_DEV_SERVER_URL = None,
                    dirname = ''/app/electron'', platform = ''linux''\<rparr>" "[]"]
  by simp

text \<open>
  C8. In a renderer world where \<open>datapackHelper\<close> is not bound yet, the preload script
  binds \<open>datapackHelper\<close> to the object whose only field is \<open>isElectron\<close>, with the
  value \<open>true\<close>, and changes no other global. Every window that \<open>createWindow\<close>
  creates runs the preload script in an isolated context.
\<close>

theorem C8_preload_exposes_flag:
  "(world ''datapackHelper'' = None \<longrightarrow>
      (\<exists>world'. preloadScript world = Inr world' \<and>
         world' ''datapackHelper'' = Some (JSObject [(''isElectron'', JSBoolean True)]) \<and>
         (\<forall>k. k \<noteq> ''datapackHelper'' \<longrightarrow> world' k = world k))) \<and>
   (\<forall>w. NewBrowserWindow w \<in> set (createWindow env) \<longrightarrow>
      contextIsolation (webPreferences w) \<and>
      preload (webPreferences w) = join [dirname env, ''preload.cjs''])"
  by (auto simp: preloadScript_def exposeInMainWorld_def createWindow_def)

theorem C8_preload_exposes_flag_witness:
  "preloadScript Map.empty =
     Inr [''datapackHelper'' \<mapsto> JSObject [(''isElectron'', JSBoolean True)]] \<and>
   NewBrowserWindow
      \<lparr>width = 1280, height = 800,
       webPreferences = \<lparr>preload = ''/app/electron/preload.cjs'', contextIsolation = True\<rparr>\<rparr>
     \<in> set (createWindow \<lparr>isPackaged = True, VITE_DEV_SERVER_URL = None,
                           dirname = ''/app/electron'', platform = ''linux''\<rparr>)"
proof -
  have j: "join [''/app/electron'', ''preload.cjs''] = ''/app/electron/preload.cjs''"
    by code_simp
  have "Map.empty ''datapackHelper'' = (None :: jsValue option)"
    by simp
  with C8_preload_exposes_flag [of Map.empty]
  obtain world' where "preloadScript Map.empty = Inr world'"
    by blast
  then show ?thesis
    by (simp add: preloadScript_def exposeInMainWorld_def createWindow_def isDev_def j)
qed

text \<open>
  C9 at the input \<open>app://./100%.png\<close>: the path of the URL is \<open>/100%.png\<close>, where
  \<open>%\<close> is not followed by two hexadecimal digits. \<open>decodeURIComponent\<close> throws
  \<open>URIError\<close>, the handler does not catch it, and \<open>callback\<close> is never called.
\<close>

theorem C9_throws_URIError:
  "new_URL ''app://./100%.png'' =
     Inr \<lparr>protocol = ''app:'', username = [], password = [], host = ''.'',
          pathname = ''/100%.png'', search = [], hash = []\<rparr> \<and>
   decodeURIComponent ''/100%.png'' = Inl URIError \<and>
   appProtocolHandler ''/app/electron'' \<lparr>url = ''app://./100%.png''\<rparr> = Inl URIError"
  by code_simp

text \<open>
  C10. Two requests whose URLs have the same \<open>pathname\<close> get the same answer from
  the handler, whatever their hosts, query strings and fragments are.
\<close>

theorem C10_pathname_only:
  assumes "new_URL (url r1) = Inr u1" and "new_URL (url r2) = Inr u2"
    and "pathname u1 = pathname u2"
  shows "appProtocolHandler dir r1 = appProtocolHandler dir r2"
  using assms by (simp add: appProtocolHandler_def requestPath_def)

theorem C10_pathname_only_witness:
  "new_URL (url \<lparr>url = ''app://./a/b.js?x=1#top''\<rparr>) =
     Inr \<lparr>protocol = ''app:'', username = [], password = [], host = ''.'',
          pathname = ''/a/b.js'', search = ''?x=1'', hash = ''#top''\<rparr> \<and>
   new_URL (url \<lparr>url = ''app://other/a/b.js''\<rparr>) =
     Inr \<lparr>protocol = ''app:'', username = [], password = [], host = ''other'',
          pathname = ''/a/b.js'', search = [], hash = []\<rparr> \<and>
   appProtocolHandler ''/app/electron'' \<lparr>url = ''app://./a/b.js?x=1#top''\<rparr> =
     appProtocolHandler ''/app/electron'' \<lparr>url = ''app://other/a/b.js''\<rparr>"
proof -
  have a: "new_URL (url \<lparr>url = ''app://./a/b.js?x=1#top''\<rparr>) =
     Inr \<lparr>protocol = ''app:'', username = [], password = [], host = ''.'',
          pathname = ''/a/b.js'', search = ''?x=1'', hash = ''#top''\<rparr>"
    by code_simp
  have b: "new_URL (url \<lparr>url = ''app://other/a/b.js''\<rparr>) =
     Inr \<lparr>protocol = ''app:'', username = [], password = [], host = ''other'',
          pathname = ''/a/b.js'', search = [], hash = []\<rparr>"
    by code_simp
  from C10_pathname_only [OF a b] a b show ?thesis
    by simp
qed

end
